theory Spec2Isabelle
  imports Complex_Main
begin

section \<open>The geometric spot grid bot (package gridtrader)\<close>

text \<open>
  The development embeds \<^verbatim>\<open>gridtrader/utils.py\<close>, \<^verbatim>\<open>gridtrader/validators.py\<close> and
  \<^verbatim>\<open>gridtrader/grid_bot.py\<close>.

  Numbers. Every amount of the source is a \<^verbatim>\<open>decimal.Decimal\<close>. A Decimal is modelled
  by the rational number it denotes, and \<open>+\<close>, \<open>-\<close>, \<open>*\<close>, \<open>/\<close> are exact: the rounding of
  each result to the 28 significant digits of the context is not part of the model, nor
  is the exception that \<^verbatim>\<open>quantize\<close> raises for a result of more than 28 digits.
  \<^verbatim>\<open>Decimal.quantize\<close> with \<^verbatim>\<open>ROUND_DOWN\<close> is truncation towards zero. The arguments
  are taken as Decimals already (\<^verbatim>\<open>to_decimal\<close> returns a Decimal unchanged).
  The one operation of the source that is not rational, the power
  \<^verbatim>\<open>(upper / lower) ** (1 / (num_levels - 1))\<close>, is a parameter \<open>dec_pow\<close> of the
  constructor; what a theorem needs of it is a hypothesis of that theorem.

  Effects. The bot is a record; a method that mutates it takes the record and returns
  the new one. A method that can raise returns the exception as a value, next to the
  state the object is left in. Time stamps and the formatted note of a trade record
  are left out.
\<close>

subsection \<open>Errors\<close>

text \<open>Every exception of the three modules is a \<^verbatim>\<open>ValueError\<close>; the constructors name
  the place that raises. \<open>DivisionByZero\<close> is the exception of the decimal module.\<close>

datatype error =
    EpsNotPositive
  | MustBeGreater string
  | CannotBeNegative string
  | TooFewLevels
  | LowerNotBelowUpper
  | InitialOutOfRange
  | RateNegative string
  | RateTooHigh string
  | PrecisionNegative string
  | InsufficientBalance
  | BalanceBecameNegative
  | NullTrade
  | DivisionByZero

subsection \<open>utils.py\<close>

datatype side = Buy | Sell

text \<open>\<^verbatim>\<open>round_decimal\<close>: \<open>quant\<close> is \<^verbatim>\<open>Decimal("1").scaleb(-precision)\<close>; quantize with
  \<^verbatim>\<open>ROUND_DOWN\<close> keeps the multiple of \<open>quant\<close> next to the value on the side of zero.\<close>

definition round_decimal :: "rat \<Rightarrow> int \<Rightarrow> rat" where
  "round_decimal v precision =
     (let quant = power_int 10 (- precision);
          units = v / quant
      in of_int (if 0 \<le> units then \<lfloor>units\<rfloor> else \<lceil>units\<rceil>) * quant)"

record TradeBreakdown =
  effective_price :: rat
  quantity :: rat
  fee_paid :: rat
  quote_amount :: rat

definition apply_slippage :: "rat \<Rightarrow> rat \<Rightarrow> side \<Rightarrow> rat" where
  "apply_slippage p rate sd =
     (if rate \<le> 0 then p
      else p * (if sd = Buy then 1 + rate else 1 - rate))"

definition calculate_fee :: "rat \<Rightarrow> rat \<Rightarrow> rat" where
  "calculate_fee amount rate = (if rate \<le> 0 then 0 else amount * rate)"

text \<open>\<^verbatim>\<open>execute_buy\<close> divides by the effective price; the decimal module raises when
  that price is zero.\<close>

definition execute_buy ::
  "rat \<Rightarrow> rat \<Rightarrow> rat \<Rightarrow> rat \<Rightarrow> int \<Rightarrow> int \<Rightarrow> error + TradeBreakdown" where
  "execute_buy amount p fee slip qprec pprec =
     (let eff = apply_slippage p slip Buy in
      if eff = 0 then Inl DivisionByZero
      else
        let base_without_fee = amount / eff;
            fee_amt = calculate_fee base_without_fee fee;
            base_after_fee = base_without_fee - fee_amt;
            qty = round_decimal base_after_fee qprec;
            quote_consumed = round_decimal amount pprec
        in Inr \<lparr> effective_price = round_decimal eff pprec,
                 quantity = qty,
                 fee_paid = round_decimal fee_amt qprec,
                 quote_amount = quote_consumed \<rparr>)"

definition execute_sell ::
  "rat \<Rightarrow> rat \<Rightarrow> rat \<Rightarrow> rat \<Rightarrow> int \<Rightarrow> int \<Rightarrow> TradeBreakdown" where
  "execute_sell amount p fee slip qprec pprec =
     (let base_amount = round_decimal amount qprec;
          eff = apply_slippage p slip Sell;
          quote_without_fee = base_amount * eff;
          fee_amt = calculate_fee quote_without_fee fee;
          quote_after_fee = quote_without_fee - fee_amt;
          quote_amt = round_decimal quote_after_fee pprec
      in \<lparr> effective_price = round_decimal eff pprec,
           quantity = base_amount,
           fee_paid = round_decimal fee_amt pprec,
           quote_amount = quote_amt \<rparr>)"

subsection \<open>validators.py\<close>

text \<open>A validator returns its (converted) argument or raises: \<open>error + 'a\<close>. An
  \<^verbatim>\<open>ensure_\<close> function returns nothing: \<open>Some e\<close> is the exception raised, \<open>None\<close> a
  normal return.\<close>

definition validate_eps :: "rat \<Rightarrow> error + rat" where
  "validate_eps e = (if e \<le> 0 then Inl EpsNotPositive else Inr e)"

definition validate_positive :: "rat \<Rightarrow> string \<Rightarrow> rat \<Rightarrow> error + rat" where
  "validate_positive v name e = (if v \<le> e then Inl (MustBeGreater name) else Inr v)"

definition validate_non_negative :: "rat \<Rightarrow> string \<Rightarrow> rat \<Rightarrow> error + rat" where
  "validate_non_negative v name e = (if v < - e then Inl (CannotBeNegative name) else Inr v)"

definition validate_bounds ::
  "rat \<Rightarrow> rat \<Rightarrow> int \<Rightarrow> rat \<Rightarrow> rat \<Rightarrow> error + (rat \<times> rat \<times> rat)" where
  "validate_bounds lo up n init e =
     (case validate_positive lo ''lower_price'' e of
        Inl err \<Rightarrow> Inl err
      | Inr lower \<Rightarrow>
     (case validate_positive up ''upper_price'' e of
        Inl err \<Rightarrow> Inl err
      | Inr upper \<Rightarrow>
        if n < 2 then Inl TooFewLevels
        else if lower \<ge> upper then Inl LowerNotBelowUpper
        else
     (case validate_positive init ''initial_price'' e of
        Inl err \<Rightarrow> Inl err
      | Inr init_price \<Rightarrow>
        if init_price < lower - e \<or> init_price > upper + e then Inl InitialOutOfRange
        else Inr (lower, upper, init_price))))"

definition validate_rate :: "rat \<Rightarrow> string \<Rightarrow> error + rat" where
  "validate_rate v name =
     (if v < 0 then Inl (RateNegative name)
      else if v \<ge> 1 then Inl (RateTooHigh name)
      else Inr v)"

definition validate_precision :: "int \<Rightarrow> string \<Rightarrow> error + int" where
  "validate_precision precision name =
     (if precision < 0 then Inl (PrecisionNegative name) else Inr precision)"

definition ensure_sufficient_balance :: "rat \<Rightarrow> rat \<Rightarrow> rat \<Rightarrow> error option" where
  "ensure_sufficient_balance bal required e =
     (if bal + e < required then Some InsufficientBalance else None)"

definition ensure_non_negative_balance :: "rat \<Rightarrow> rat \<Rightarrow> error option" where
  "ensure_non_negative_balance bal e =
     (if bal < - e then Some BalanceBecameNegative else None)"

definition ensure_trade_result :: "rat \<Rightarrow> rat \<Rightarrow> error option" where
  "ensure_trade_result qty e = (if qty \<le> e then Some NullTrade else None)"

subsection \<open>grid_bot.py: the data\<close>

datatype level_status = Quote | Base

record GridLevel =
  price :: rat
  status :: level_status
  quote_budget :: rat
  base_position :: rat
  last_action :: "side option"

record TradeLog =
  side :: side
  level_price :: rat
  execution_price :: rat
  log_quantity :: rat
  log_quote_amount :: rat
  log_fee_paid :: rat

text \<open>The dataclass \<^verbatim>\<open>GridTradingBotGeomSpot\<close>. The two asset names only appear in
  messages and are left out.\<close>

record GridTradingBotGeomSpot =
  num_levels :: int
  lower_price :: rat
  upper_price :: rat
  initial_price :: rat
  base_balance :: rat
  quote_balance :: rat
  fee_rate :: rat
  slippage_rate :: rat
  price_precision :: int
  quantity_precision :: int
  eps :: rat
  levels :: "GridLevel list"
  trade_history :: "TradeLog list"

subsection \<open>grid_bot.py: building the grid\<close>

text \<open>The first loop of \<^verbatim>\<open>_build_levels\<close>: \<open>k\<close> prices, each the previous one times
  the ratio.\<close>

fun gen_prices :: "nat \<Rightarrow> rat \<Rightarrow> rat \<Rightarrow> rat list" where
  "gen_prices 0 p ratio = []"
| "gen_prices (Suc k) p ratio = p # gen_prices k (p * ratio) ratio"

text \<open>The two allocation loops of \<^verbatim>\<open>_build_levels\<close> are the same loop at two
  precisions. \<open>total_levels\<close> is the length of the whole list, \<open>index\<close> the position that
  \<^verbatim>\<open>enumerate\<close> gives; the dictionary is a map and a later store to a key replaces an
  earlier one. The result is the remaining balance and the dictionary.\<close>

fun allocate ::
  "int \<Rightarrow> int \<Rightarrow> int \<Rightarrow> rat list \<Rightarrow> rat \<Rightarrow> (rat \<rightharpoonup> rat) \<Rightarrow> rat \<times> (rat \<rightharpoonup> rat)" where
  "allocate precision total_levels index [] remaining allocations = (remaining, allocations)"
| "allocate precision total_levels index (key # rest) remaining allocations =
     (if total_levels = 0 then (remaining, allocations)
      else
        let levels_left = total_levels - index;
            allocation = (if levels_left \<noteq> 0 then remaining / of_int levels_left else 0);
            allocation = round_decimal allocation precision;
            allocation = min allocation remaining
        in allocate precision total_levels (index + 1) rest (remaining - allocation)
             (allocations(key \<mapsto> allocation)))"

definition dict_get :: "(rat \<rightharpoonup> rat) \<Rightarrow> rat \<Rightarrow> rat \<Rightarrow> rat" where
  "dict_get d k dflt = (case d k of None \<Rightarrow> dflt | Some v \<Rightarrow> v)"

definition new_level ::
  "GridTradingBotGeomSpot \<Rightarrow> (rat \<rightharpoonup> rat) \<Rightarrow> (rat \<rightharpoonup> rat) \<Rightarrow> rat \<Rightarrow> GridLevel" where
  "new_level b base_allocations quote_allocations p =
     (let level = \<lparr> price = round_decimal p (price_precision b), status = Quote,
                     quote_budget = 0, base_position = 0, last_action = None \<rparr>
      in if p \<le> initial_price b + eps b
         then level\<lparr> status := Base, base_position := dict_get base_allocations p 0 \<rparr>
         else level\<lparr> status := Quote, quote_budget := dict_get quote_allocations p 0 \<rparr>)"

definition build_levels ::
  "(rat \<Rightarrow> rat \<Rightarrow> rat) \<Rightarrow> GridTradingBotGeomSpot \<Rightarrow> GridTradingBotGeomSpot" where
  "build_levels dec_pow b =
     (let ratio = dec_pow (upper_price b / lower_price b) (1 / of_int (num_levels b - 1));
          prices = gen_prices (nat (num_levels b)) (lower_price b) ratio;
          base_levels = filter (\<lambda>p. p \<le> initial_price b + eps b) prices;
          quote_levels = filter (\<lambda>p. p > initial_price b + eps b) prices;
          base_allocations =
            snd (allocate (quantity_precision b) (int (length base_levels)) 0 base_levels
                   (base_balance b) Map.empty);
          quote_allocations =
            snd (allocate (price_precision b) (int (length quote_levels)) 0 quote_levels
                   (quote_balance b) Map.empty)
      in b\<lparr> levels := map (new_level b base_allocations quote_allocations) prices \<rparr>)"

text \<open>\<^verbatim>\<open>__post_init__\<close>: the validations in the order of the source, then the grid.\<close>

definition post_init ::
  "(rat \<Rightarrow> rat \<Rightarrow> rat) \<Rightarrow> GridTradingBotGeomSpot \<Rightarrow> error + GridTradingBotGeomSpot" where
  "post_init dec_pow b =
     (case validate_eps (eps b) of Inl err \<Rightarrow> Inl err | Inr e \<Rightarrow>
     (case validate_bounds (lower_price b) (upper_price b) (num_levels b) (initial_price b) e of
        Inl err \<Rightarrow> Inl err | Inr (lo, up, init) \<Rightarrow>
     (case validate_non_negative (base_balance b) ''base_balance'' e of
        Inl err \<Rightarrow> Inl err | Inr bb \<Rightarrow>
     (case validate_non_negative (quote_balance b) ''quote_balance'' e of
        Inl err \<Rightarrow> Inl err | Inr qb \<Rightarrow>
     (case validate_rate (fee_rate b) ''fee_rate'' of
        Inl err \<Rightarrow> Inl err | Inr fee \<Rightarrow>
     (case validate_rate (slippage_rate b) ''slippage_rate'' of
        Inl err \<Rightarrow> Inl err | Inr slip \<Rightarrow>
     (case validate_precision (price_precision b) ''price_precision'' of
        Inl err \<Rightarrow> Inl err | Inr pp \<Rightarrow>
     (case validate_precision (quantity_precision b) ''quantity_precision'' of
        Inl err \<Rightarrow> Inl err | Inr qp \<Rightarrow>
        Inr (build_levels dec_pow
               (b\<lparr> eps := e, lower_price := lo, upper_price := up, initial_price := init,
                   base_balance := bb, quote_balance := qb, fee_rate := fee,
                   slippage_rate := slip, price_precision := pp,
                   quantity_precision := qp \<rparr>))))))))))"

subsection \<open>grid_bot.py: executing a level\<close>

text \<open>\<^verbatim>\<open>_execute_buy(level)\<close> and \<^verbatim>\<open>_execute_sell(level)\<close>: the level object is the
  element \<open>i\<close> of \<open>levels\<close>. Every check comes before the first assignment, so the state
  returned with an exception is the state of the call.\<close>

definition bot_execute_buy ::
  "nat \<Rightarrow> GridTradingBotGeomSpot \<Rightarrow> error option \<times> GridTradingBotGeomSpot" where
  "bot_execute_buy i b =
     (let level = levels b ! i;
          amount = quote_budget level
      in if amount \<le> eps b then (None, b)
         else
     (case ensure_sufficient_balance (quote_balance b) amount (eps b) of
        Some err \<Rightarrow> (Some err, b) | None \<Rightarrow>
     (case execute_buy amount (price level) (fee_rate b) (slippage_rate b)
             (quantity_precision b) (price_precision b) of
        Inl err \<Rightarrow> (Some err, b) | Inr trade \<Rightarrow>
     (case ensure_trade_result (quantity trade) (eps b) of
        Some err \<Rightarrow> (Some err, b) | None \<Rightarrow>
        (None,
         b\<lparr> quote_balance := quote_balance b - quote_amount trade,
            base_balance := base_balance b + quantity trade,
            levels := (levels b)[i := level\<lparr> base_position := quantity trade,
                                             quote_budget := 0,
                                             status := Base,
                                             last_action := Some Buy \<rparr>],
            trade_history := trade_history b @
              [\<lparr> side = Buy, level_price = price level,
                 execution_price = effective_price trade,
                 log_quantity = quantity trade,
                 log_quote_amount = quote_amount trade,
                 log_fee_paid = fee_paid trade \<rparr>] \<rparr>)))))"

definition bot_execute_sell ::
  "nat \<Rightarrow> GridTradingBotGeomSpot \<Rightarrow> error option \<times> GridTradingBotGeomSpot" where
  "bot_execute_sell i b =
     (let level = levels b ! i;
          amount = base_position level
      in if amount \<le> eps b then (None, b)
         else
     (case ensure_sufficient_balance (base_balance b) amount (eps b) of
        Some err \<Rightarrow> (Some err, b) | None \<Rightarrow>
     (let trade = execute_sell amount (price level) (fee_rate b) (slippage_rate b)
                    (quantity_precision b) (price_precision b) in
      case ensure_trade_result (quote_amount trade) (eps b) of
        Some err \<Rightarrow> (Some err, b) | None \<Rightarrow>
        (None,
         b\<lparr> base_balance := base_balance b - quantity trade,
            quote_balance := quote_balance b + quote_amount trade,
            levels := (levels b)[i := level\<lparr> base_position := 0,
                                             quote_budget := quote_amount trade,
                                             status := Quote,
                                             last_action := Some Sell \<rparr>],
            trade_history := trade_history b @
              [\<lparr> side = Sell, level_price = price level,
                 execution_price = effective_price trade,
                 log_quantity = quantity trade,
                 log_quote_amount = quote_amount trade,
                 log_fee_paid = fee_paid trade \<rparr>] \<rparr>))))"

subsection \<open>grid_bot.py: a price tick\<close>

text \<open>The two loops of \<^verbatim>\<open>on_price_tick\<close> run over positions of \<open>levels\<close>: the list
  itself never changes, only its elements. The first loop takes the positions in
  ascending order, the second in descending order. An exception ends the loop.\<close>

fun buy_pass ::
  "rat \<Rightarrow> nat list \<Rightarrow> GridTradingBotGeomSpot \<Rightarrow> error option \<times> GridTradingBotGeomSpot" where
  "buy_pass current_price [] b = (None, b)"
| "buy_pass current_price (i # rest) b =
     (let level = levels b ! i in
      if status level = Quote \<and> current_price \<le> price level + eps b
      then (case bot_execute_buy i b of
              (Some err, b') \<Rightarrow> (Some err, b')
            | (None, b') \<Rightarrow> buy_pass current_price rest b')
      else buy_pass current_price rest b)"

fun sell_pass ::
  "rat \<Rightarrow> nat list \<Rightarrow> GridTradingBotGeomSpot \<Rightarrow> error option \<times> GridTradingBotGeomSpot" where
  "sell_pass current_price [] b = (None, b)"
| "sell_pass current_price (i # rest) b =
     (let level = levels b ! i in
      if status level = Base \<and> current_price \<ge> price level - eps b
      then (case bot_execute_sell i b of
              (Some err, b') \<Rightarrow> (Some err, b')
            | (None, b') \<Rightarrow> sell_pass current_price rest b')
      else sell_pass current_price rest b)"

definition on_price_tick ::
  "rat \<Rightarrow> GridTradingBotGeomSpot \<Rightarrow> error option \<times> GridTradingBotGeomSpot" where
  "on_price_tick p b =
     (case validate_positive p ''market_price'' (eps b) of
        Inl err \<Rightarrow> (Some err, b)
      | Inr current_price \<Rightarrow>
     (case buy_pass current_price [0 ..< length (levels b)] b of
        (Some err, b1) \<Rightarrow> (Some err, b1)
      | (None, b1) \<Rightarrow>
     (case sell_pass current_price (rev [0 ..< length (levels b1)]) b1 of
        (Some err, b2) \<Rightarrow> (Some err, b2)
      | (None, b2) \<Rightarrow>
     (case ensure_non_negative_balance (base_balance b2) (eps b2) of
        Some err \<Rightarrow> (Some err, b2)
      | None \<Rightarrow>
     (case ensure_non_negative_balance (quote_balance b2) (eps b2) of
        Some err \<Rightarrow> (Some err, b2)
      | None \<Rightarrow> (None, b2))))))"


subsection \<open>Notions used by the statements and the proofs\<close>




definition bought_level :: "GridLevel \<Rightarrow> TradeBreakdown \<Rightarrow> GridLevel" where
  "bought_level l t = l\<lparr> base_position := quantity t, quote_budget := 0, status := Base,
                         last_action := Some Buy \<rparr>"

definition sold_level :: "GridLevel \<Rightarrow> TradeBreakdown \<Rightarrow> GridLevel" where
  "sold_level l t = l\<lparr> base_position := 0, quote_budget := quote_amount t, status := Quote,
                       last_action := Some Sell \<rparr>"

definition trade_log :: "side \<Rightarrow> GridLevel \<Rightarrow> TradeBreakdown \<Rightarrow> TradeLog" where
  "trade_log sd l t = \<lparr> side = sd, level_price = price l, execution_price = effective_price t,
                        log_quantity = quantity t, log_quote_amount = quote_amount t,
                        log_fee_paid = fee_paid t \<rparr>"

definition level_buy :: "GridTradingBotGeomSpot \<Rightarrow> GridLevel \<Rightarrow> error + TradeBreakdown" where
  "level_buy b l = execute_buy (quote_budget l) (price l) (fee_rate b) (slippage_rate b)
                     (quantity_precision b) (price_precision b)"

definition level_sell :: "GridTradingBotGeomSpot \<Rightarrow> GridLevel \<Rightarrow> TradeBreakdown" where
  "level_sell b l = execute_sell (base_position l) (price l) (fee_rate b) (slippage_rate b)
                     (quantity_precision b) (price_precision b)"

definition commit_buy :: "nat \<Rightarrow> TradeBreakdown \<Rightarrow> GridTradingBotGeomSpot \<Rightarrow> GridTradingBotGeomSpot" where
  "commit_buy i t b =
     b\<lparr> quote_balance := quote_balance b - quote_amount t,
        base_balance := base_balance b + quantity t,
        levels := (levels b)[i := bought_level (levels b ! i) t],
        trade_history := trade_history b @ [trade_log Buy (levels b ! i) t] \<rparr>"

definition commit_sell :: "nat \<Rightarrow> TradeBreakdown \<Rightarrow> GridTradingBotGeomSpot \<Rightarrow> GridTradingBotGeomSpot" where
  "commit_sell i t b =
     b\<lparr> base_balance := base_balance b - quantity t,
        quote_balance := quote_balance b + quote_amount t,
        levels := (levels b)[i := sold_level (levels b ! i) t],
        trade_history := trade_history b @ [trade_log Sell (levels b ! i) t] \<rparr>"

definition same_config :: "GridTradingBotGeomSpot \<Rightarrow> GridTradingBotGeomSpot \<Rightarrow> bool" where
  "same_config b b' \<longleftrightarrow>
     eps b' = eps b \<and> fee_rate b' = fee_rate b \<and> slippage_rate b' = slippage_rate b \<and>
     price_precision b' = price_precision b \<and> quantity_precision b' = quantity_precision b \<and>
     length (levels b') = length (levels b) \<and> map price (levels b') = map price (levels b)"





definition valid_config :: "GridTradingBotGeomSpot \<Rightarrow> bool" where
  "valid_config c \<longleftrightarrow>
     0 < eps c \<and> eps c < lower_price c \<and> eps c < upper_price c \<and> 2 \<le> num_levels c \<and>
     lower_price c < upper_price c \<and> eps c < initial_price c \<and>
     lower_price c - eps c \<le> initial_price c \<and> initial_price c \<le> upper_price c + eps c \<and>
     - eps c \<le> base_balance c \<and> - eps c \<le> quote_balance c \<and>
     0 \<le> fee_rate c \<and> fee_rate c < 1 \<and> 0 \<le> slippage_rate c \<and> slippage_rate c < 1 \<and>
     0 \<le> price_precision c \<and> 0 \<le> quantity_precision c"


definition grid_ratio :: "(rat \<Rightarrow> rat \<Rightarrow> rat) \<Rightarrow> GridTradingBotGeomSpot \<Rightarrow> rat" where
  "grid_ratio dec_pow c = dec_pow (upper_price c / lower_price c) (1 / of_int (num_levels c - 1))"

definition grid_prices :: "(rat \<Rightarrow> rat \<Rightarrow> rat) \<Rightarrow> GridTradingBotGeomSpot \<Rightarrow> rat list" where
  "grid_prices dec_pow c = gen_prices (nat (num_levels c)) (lower_price c) (grid_ratio dec_pow c)"

definition base_levels :: "(rat \<Rightarrow> rat \<Rightarrow> rat) \<Rightarrow> GridTradingBotGeomSpot \<Rightarrow> rat list" where
  "base_levels dec_pow c = filter (\<lambda>p. p \<le> initial_price c + eps c) (grid_prices dec_pow c)"

definition quote_levels :: "(rat \<Rightarrow> rat \<Rightarrow> rat) \<Rightarrow> GridTradingBotGeomSpot \<Rightarrow> rat list" where
  "quote_levels dec_pow c = filter (\<lambda>p. p > initial_price c + eps c) (grid_prices dec_pow c)"



text \<open>Concrete engines for the examples. \<^verbatim>\<open>x ** Decimal(1)\<close> is \<open>x\<close>: \<open>pow_at_one\<close> is the
  power of the decimal module at the exponent 1, the exponent of every grid of two levels,
  and it is only used there.\<close>

definition pow_at_one :: "rat \<Rightarrow> rat \<Rightarrow> rat" where
  "pow_at_one x y = (if y = 1 then x else 1)"

definition two_level_config ::
  "rat \<Rightarrow> rat \<Rightarrow> rat \<Rightarrow> rat \<Rightarrow> rat \<Rightarrow> int \<Rightarrow> int \<Rightarrow> GridTradingBotGeomSpot" where
  "two_level_config lo up init bb qb pp qp =
     \<lparr> num_levels = 2, lower_price = lo, upper_price = up, initial_price = init,
       base_balance = bb, quote_balance = qb, fee_rate = 0, slippage_rate = 0,
       price_precision = pp, quantity_precision = qp, eps = 1 / 1000000000,
       levels = [], trade_history = [] \<rparr>"

definition two_levels ::
  "GridTradingBotGeomSpot \<Rightarrow> GridLevel \<Rightarrow> GridLevel \<Rightarrow> GridTradingBotGeomSpot" where
  "two_levels c l0 l1 = c\<lparr> levels := [l0, l1] \<rparr>"

definition mk_level :: "rat \<Rightarrow> level_status \<Rightarrow> rat \<Rightarrow> rat \<Rightarrow> side option \<Rightarrow> GridLevel" where
  "mk_level p s qb bp la =
     \<lparr> price = p, status = s, quote_budget = qb, base_position = bp, last_action = la \<rparr>"

definition demo_config :: GridTradingBotGeomSpot where
  "demo_config = two_level_config 1 2 1 1 1000 2 8"

definition demo_engine :: GridTradingBotGeomSpot where
  "demo_engine = two_levels demo_config (mk_level 1 Base 0 1 None) (mk_level 2 Quote 1000 0 None)"

definition demo_after_tick :: GridTradingBotGeomSpot where
  "demo_after_tick = snd (on_price_tick (3 / 2) demo_engine)"













definition coarse_buy_config :: GridTradingBotGeomSpot where
  "coarse_buy_config = two_level_config 1 2 1 3 1 2 0"

definition coarse_buy_engine :: GridTradingBotGeomSpot where
  "coarse_buy_engine =
     snd (on_price_tick 3
       (two_levels coarse_buy_config (mk_level 1 Base 0 3 None) (mk_level 2 Quote 1 0 None)))"

definition coarse_sell_config :: GridTradingBotGeomSpot where
  "coarse_sell_config = two_level_config 1 2 2 1 0 0 1"

definition coarse_sell_engine :: GridTradingBotGeomSpot where
  "coarse_sell_engine =
     two_levels coarse_sell_config (mk_level 1 Base 0 (1 / 2) None) (mk_level 2 Base 0 (1 / 2) None)"

text \<open>A level \<open>buy_fires\<close> at a tick price when the buy loop would execute it and the
  execution would not skip; likewise \<open>sell_fires\<close>.\<close>

definition buy_fires :: "rat \<Rightarrow> GridTradingBotGeomSpot \<Rightarrow> GridLevel \<Rightarrow> bool" where
  "buy_fires cp b l \<longleftrightarrow> status l = Quote \<and> cp \<le> price l + eps b \<and> eps b < quote_budget l"

definition sell_fires :: "rat \<Rightarrow> GridTradingBotGeomSpot \<Rightarrow> GridLevel \<Rightarrow> bool" where
  "sell_fires cp b l \<longleftrightarrow> status l = Base \<and> cp \<ge> price l - eps b \<and> eps b < base_position l"

text \<open>The two passes of \<^verbatim>\<open>on_price_tick\<close> in the order of the source, and in the other order
  (C9 compares the two). The second is not in the source.\<close>

definition buy_then_sell ::
  "rat \<Rightarrow> GridTradingBotGeomSpot \<Rightarrow> error option \<times> GridTradingBotGeomSpot" where
  "buy_then_sell cp b =
     (case buy_pass cp [0 ..< length (levels b)] b of
        (Some err, b1) \<Rightarrow> (Some err, b1)
      | (None, b1) \<Rightarrow> sell_pass cp (rev [0 ..< length (levels b1)]) b1)"









section \<open>Lemmas\<close>

subsection \<open>Rounding\<close>









subsection \<open>The execution of a level, case by case\<close>

lemma bot_execute_buy_eq:
  "bot_execute_buy i b =
     (if quote_budget (levels b ! i) \<le> eps b then (None, b)
      else if quote_balance b + eps b < quote_budget (levels b ! i)
           then (Some InsufficientBalance, b)
      else case level_buy b (levels b ! i) of
             Inl e \<Rightarrow> (Some e, b)
           | Inr t \<Rightarrow> if quantity t \<le> eps b then (Some NullTrade, b)
                      else (None, commit_buy i t b))"
  unfolding bot_execute_buy_def Let_def ensure_sufficient_balance_def ensure_trade_result_def
    level_buy_def commit_buy_def bought_level_def trade_log_def
  by (simp split: sum.split)

lemma bot_execute_sell_eq:
  "bot_execute_sell i b =
     (if base_position (levels b ! i) \<le> eps b then (None, b)
      else if base_balance b + eps b < base_position (levels b ! i)
           then (Some InsufficientBalance, b)
      else if quote_amount (level_sell b (levels b ! i)) \<le> eps b then (Some NullTrade, b)
      else (None, commit_sell i (level_sell b (levels b ! i)) b))"
  unfolding bot_execute_sell_def Let_def ensure_sufficient_balance_def ensure_trade_result_def
    level_sell_def commit_sell_def sold_level_def trade_log_def
  by simp

lemma commit_buy_fields:
  "eps (commit_buy i t b) = eps b"
  "fee_rate (commit_buy i t b) = fee_rate b"
  "slippage_rate (commit_buy i t b) = slippage_rate b"
  "price_precision (commit_buy i t b) = price_precision b"
  "quantity_precision (commit_buy i t b) = quantity_precision b"
  "quote_balance (commit_buy i t b) = quote_balance b - quote_amount t"
  "base_balance (commit_buy i t b) = base_balance b + quantity t"
  "levels (commit_buy i t b) = (levels b)[i := bought_level (levels b ! i) t]"
  "trade_history (commit_buy i t b) = trade_history b @ [trade_log Buy (levels b ! i) t]"
  by (simp_all add: commit_buy_def)

lemma commit_sell_fields:
  "eps (commit_sell i t b) = eps b"
  "fee_rate (commit_sell i t b) = fee_rate b"
  "slippage_rate (commit_sell i t b) = slippage_rate b"
  "price_precision (commit_sell i t b) = price_precision b"
  "quantity_precision (commit_sell i t b) = quantity_precision b"
  "base_balance (commit_sell i t b) = base_balance b - quantity t"
  "quote_balance (commit_sell i t b) = quote_balance b + quote_amount t"
  "levels (commit_sell i t b) = (levels b)[i := sold_level (levels b ! i) t]"
  "trade_history (commit_sell i t b) = trade_history b @ [trade_log Sell (levels b ! i) t]"
  by (simp_all add: commit_sell_def)

lemma bought_level_fields:
  "price (bought_level l t) = price l"
  "status (bought_level l t) = Base"
  "quote_budget (bought_level l t) = 0"
  "base_position (bought_level l t) = quantity t"
  by (simp_all add: bought_level_def)

lemma sold_level_fields:
  "price (sold_level l t) = price l"
  "status (sold_level l t) = Quote"
  "quote_budget (sold_level l t) = quote_amount t"
  "base_position (sold_level l t) = 0"
  by (simp_all add: sold_level_def)

lemma bot_execute_buy_cases:
  assumes "bot_execute_buy i b = (r, b')"
  obtains
    (skip) "quote_budget (levels b ! i) \<le> eps b" "r = None" "b' = b"
  | (raise) e where "eps b < quote_budget (levels b ! i)" "r = Some e" "b' = b"
  | (exec) t where "eps b < quote_budget (levels b ! i)" "r = None"
      "level_buy b (levels b ! i) = Inr t" "eps b < quantity t"
      "quote_budget (levels b ! i) \<le> quote_balance b + eps b"
      "b' = commit_buy i t b"
proof (cases "quote_budget (levels b ! i) \<le> eps b")
  case True
  then have "r = None" "b' = b" using assms by (simp_all add: bot_execute_buy_eq)
  with True show ?thesis by (rule skip)
next
  case nskip: False
  show ?thesis
  proof (cases "quote_balance b + eps b < quote_budget (levels b ! i)")
    case True
    then have "r = Some InsufficientBalance" "b' = b"
      using assms nskip by (simp_all add: bot_execute_buy_eq)
    with nskip show ?thesis by (intro raise) simp_all
  next
    case suff: False
    show ?thesis
    proof (cases "level_buy b (levels b ! i)")
      case (Inl e)
      then have "r = Some e" "b' = b"
        using assms nskip suff by (simp_all add: bot_execute_buy_eq)
      with nskip show ?thesis by (intro raise) simp_all
    next
      case (Inr t)
      show ?thesis
      proof (cases "quantity t \<le> eps b")
        case True
        then have "r = Some NullTrade" "b' = b"
          using assms nskip suff Inr by (simp_all add: bot_execute_buy_eq)
        with nskip show ?thesis by (intro raise) simp_all
      next
        case False
        then have "r = None" "b' = commit_buy i t b"
          using assms nskip suff Inr by (simp_all add: bot_execute_buy_eq)
        with nskip suff Inr False show ?thesis by (intro exec) simp_all
      qed
    qed
  qed
qed

lemma bot_execute_sell_cases:
  assumes "bot_execute_sell i b = (r, b')"
  obtains
    (skip) "base_position (levels b ! i) \<le> eps b" "r = None" "b' = b"
  | (raise) e where "eps b < base_position (levels b ! i)" "r = Some e" "b' = b"
  | (exec) t where "eps b < base_position (levels b ! i)" "r = None"
      "level_sell b (levels b ! i) = t" "eps b < quote_amount t"
      "base_position (levels b ! i) \<le> base_balance b + eps b"
      "b' = commit_sell i t b"
proof (cases "base_position (levels b ! i) \<le> eps b")
  case True
  then have "r = None" "b' = b" using assms by (simp_all add: bot_execute_sell_eq)
  with True show ?thesis by (rule skip)
next
  case nskip: False
  show ?thesis
  proof (cases "base_balance b + eps b < base_position (levels b ! i)")
    case True
    then have "r = Some InsufficientBalance" "b' = b"
      using assms nskip by (simp_all add: bot_execute_sell_eq)
    with nskip show ?thesis by (intro raise) simp_all
  next
    case suff: False
    show ?thesis
    proof (cases "quote_amount (level_sell b (levels b ! i)) \<le> eps b")
      case True
      then have "r = Some NullTrade" "b' = b"
        using assms nskip suff by (simp_all add: bot_execute_sell_eq)
      with nskip show ?thesis by (intro raise) simp_all
    next
      case False
      then have "r = None" "b' = commit_sell i (level_sell b (levels b ! i)) b"
        using assms nskip suff by (simp_all add: bot_execute_sell_eq)
      with nskip suff False show ?thesis by (intro exec) simp_all
    qed
  qed
qed

lemma same_config_refl: "same_config b b"
  by (simp add: same_config_def)

lemma same_config_trans: "same_config a b \<Longrightarrow> same_config b c \<Longrightarrow> same_config a c"
  by (simp add: same_config_def)

lemma map_price_update:
  "price x = price (ls ! i) \<Longrightarrow> map price (ls[i := x]) = map price ls"
  by (cases "i < length ls") (simp_all add: map_update list_update_same_conv list_update_beyond)

lemma bot_execute_buy_config: "bot_execute_buy i b = (r, b') \<Longrightarrow> same_config b b'"
  by (erule bot_execute_buy_cases)
     (simp_all add: same_config_def commit_buy_fields bought_level_fields map_price_update)

lemma bot_execute_sell_config: "bot_execute_sell i b = (r, b') \<Longrightarrow> same_config b b'"
  by (erule bot_execute_sell_cases)
     (simp_all add: same_config_def commit_sell_fields sold_level_fields map_price_update)

subsection \<open>The steps of a pass and invariants of a pass\<close>

lemma buy_pass_skip:
  "\<not> (status (levels b ! i) = Quote \<and> cp \<le> price (levels b ! i) + eps b) \<Longrightarrow>
   buy_pass cp (i # rest) b = buy_pass cp rest b"
  by (cases "status (levels b ! i) = Quote") (simp_all add: Let_def)

lemma buy_pass_exec:
  "status (levels b ! i) = Quote \<Longrightarrow> cp \<le> price (levels b ! i) + eps b \<Longrightarrow>
   bot_execute_buy i b = (None, b1) \<Longrightarrow>
   buy_pass cp (i # rest) b = buy_pass cp rest b1"
  by (simp add: Let_def)

lemma buy_pass_raise:
  "status (levels b ! i) = Quote \<Longrightarrow> cp \<le> price (levels b ! i) + eps b \<Longrightarrow>
   bot_execute_buy i b = (Some e, b1) \<Longrightarrow>
   buy_pass cp (i # rest) b = (Some e, b1)"
  by (simp add: Let_def)

lemma sell_pass_skip:
  "\<not> (status (levels b ! i) = Base \<and> cp \<ge> price (levels b ! i) - eps b) \<Longrightarrow>
   sell_pass cp (i # rest) b = sell_pass cp rest b"
  by (cases "status (levels b ! i) = Base") (simp_all add: Let_def)

lemma sell_pass_exec:
  "status (levels b ! i) = Base \<Longrightarrow> cp \<ge> price (levels b ! i) - eps b \<Longrightarrow>
   bot_execute_sell i b = (None, b1) \<Longrightarrow>
   sell_pass cp (i # rest) b = sell_pass cp rest b1"
  by (simp add: Let_def)

lemma sell_pass_raise:
  "status (levels b ! i) = Base \<Longrightarrow> cp \<ge> price (levels b ! i) - eps b \<Longrightarrow>
   bot_execute_sell i b = (Some e, b1) \<Longrightarrow>
   sell_pass cp (i # rest) b = (Some e, b1)"
  by (simp add: Let_def)

text \<open>An invariant of the executions is an invariant of a pass.\<close>

lemma buy_pass_invariant:
  assumes "buy_pass cp idx b = (r, b')" and "P b"
    and step: "\<And>i s r1 s1. P s \<Longrightarrow> i \<in> set idx \<Longrightarrow> status (levels s ! i) = Quote \<Longrightarrow>
            cp \<le> price (levels s ! i) + eps s \<Longrightarrow> bot_execute_buy i s = (r1, s1) \<Longrightarrow> P s1"
  shows "P b'"
  using assms
proof (induction idx arbitrary: b)
  case Nil
  then show ?case by simp
next
  case (Cons i rest)
  have step': "\<And>j s r1 s1. P s \<Longrightarrow> j \<in> set rest \<Longrightarrow> status (levels s ! j) = Quote \<Longrightarrow>
            cp \<le> price (levels s ! j) + eps s \<Longrightarrow> bot_execute_buy j s = (r1, s1) \<Longrightarrow> P s1"
    using Cons.prems(3) by (meson list.set_intros(2))
  show ?case
  proof (cases "status (levels b ! i) = Quote \<and> cp \<le> price (levels b ! i) + eps b")
    case False
    then have eq: "buy_pass cp (i # rest) b = buy_pass cp rest b" by (rule buy_pass_skip)
    have "buy_pass cp rest b = (r, b')"
      using Cons.prems(1) unfolding eq .
    then show ?thesis using Cons.prems(2) step' by (rule Cons.IH)
  next
    case True
    obtain r1 b1 where e: "bot_execute_buy i b = (r1, b1)" by (cases "bot_execute_buy i b")
    have p1: "P b1" using Cons.prems(2) _ _ _ e by (rule Cons.prems(3)) (simp_all add: True)
    show ?thesis
    proof (cases r1)
      case None
      then have eq: "buy_pass cp (i # rest) b = buy_pass cp rest b1"
        using True e by (intro buy_pass_exec) simp_all
      have "buy_pass cp rest b1 = (r, b')"
        using Cons.prems(1) unfolding eq .
      then show ?thesis using p1 step' by (rule Cons.IH)
    next
      case (Some err)
      then have eq: "buy_pass cp (i # rest) b = (Some err, b1)"
        using True e by (intro buy_pass_raise) simp_all
      have "(Some err, b1) = (r, b')"
        using Cons.prems(1) unfolding eq .
      with p1 show ?thesis by simp
    qed
  qed
qed

lemma sell_pass_invariant:
  assumes "sell_pass cp idx b = (r, b')" and "P b"
    and step: "\<And>i s r1 s1. P s \<Longrightarrow> i \<in> set idx \<Longrightarrow> status (levels s ! i) = Base \<Longrightarrow>
            cp \<ge> price (levels s ! i) - eps s \<Longrightarrow> bot_execute_sell i s = (r1, s1) \<Longrightarrow> P s1"
  shows "P b'"
  using assms
proof (induction idx arbitrary: b)
  case Nil
  then show ?case by simp
next
  case (Cons i rest)
  have step': "\<And>j s r1 s1. P s \<Longrightarrow> j \<in> set rest \<Longrightarrow> status (levels s ! j) = Base \<Longrightarrow>
            cp \<ge> price (levels s ! j) - eps s \<Longrightarrow> bot_execute_sell j s = (r1, s1) \<Longrightarrow> P s1"
    using Cons.prems(3) by (meson list.set_intros(2))
  show ?case
  proof (cases "status (levels b ! i) = Base \<and> cp \<ge> price (levels b ! i) - eps b")
    case False
    then have eq: "sell_pass cp (i # rest) b = sell_pass cp rest b" by (rule sell_pass_skip)
    have "sell_pass cp rest b = (r, b')"
      using Cons.prems(1) unfolding eq .
    then show ?thesis using Cons.prems(2) step' by (rule Cons.IH)
  next
    case True
    obtain r1 b1 where e: "bot_execute_sell i b = (r1, b1)" by (cases "bot_execute_sell i b")
    have p1: "P b1" using Cons.prems(2) _ _ _ e by (rule Cons.prems(3)) (simp_all add: True)
    show ?thesis
    proof (cases r1)
      case None
      then have eq: "sell_pass cp (i # rest) b = sell_pass cp rest b1"
        using True e by (intro sell_pass_exec) simp_all
      have "sell_pass cp rest b1 = (r, b')"
        using Cons.prems(1) unfolding eq .
      then show ?thesis using p1 step' by (rule Cons.IH)
    next
      case (Some err)
      then have eq: "sell_pass cp (i # rest) b = (Some err, b1)"
        using True e by (intro sell_pass_raise) simp_all
      have "(Some err, b1) = (r, b')"
        using Cons.prems(1) unfolding eq .
      with p1 show ?thesis by simp
    qed
  qed
qed

subsection \<open>Invariants of a tick\<close>

lemma bot_execute_buy_length:
  "bot_execute_buy i b = (r, b') \<Longrightarrow> length (levels b') = length (levels b)"
  using bot_execute_buy_config[of i b r b'] by (simp add: same_config_def)

lemma bot_execute_sell_length:
  "bot_execute_sell i b = (r, b') \<Longrightarrow> length (levels b') = length (levels b)"
  using bot_execute_sell_config[of i b r b'] by (simp add: same_config_def)



subsection \<open>The invariant of the levels and the two offsets\<close>













subsection \<open>The constructor\<close>


lemma valid_config_post_init:
  "valid_config c \<Longrightarrow> post_init dec_pow c = Inr (build_levels dec_pow c)"
  unfolding post_init_def validate_eps_def validate_bounds_def validate_positive_def
    validate_non_negative_def validate_rate_def validate_precision_def valid_config_def
  by simp

subsection \<open>Prices and allocations\<close>













subsection \<open>The constructed levels\<close>





















subsection \<open>Remainders of the allocation, reachable states, the example engine\<close>







lemma demo_tick_returns: "on_price_tick (3 / 2) demo_engine = (None, demo_after_tick)"
proof -
  have "fst (on_price_tick (3 / 2) demo_engine) = None" by code_simp
  then show ?thesis unfolding demo_after_tick_def by (simp add: prod_eq_iff)
qed


subsection \<open>A pass over a list that is split in two; trades without fee or slippage\<close>

lemma buy_pass_append:
  "buy_pass cp (xs @ ys) b =
     (case buy_pass cp xs b of (None, b') \<Rightarrow> buy_pass cp ys b' | (Some e, b') \<Rightarrow> (Some e, b'))"
proof (induction xs arbitrary: b)
  case Nil
  then show ?case by simp
next
  case (Cons i xs)
  show ?case
  proof (cases "status (levels b ! i) = Quote \<and> cp \<le> price (levels b ! i) + eps b")
    case False
    then have e1: "buy_pass cp (i # xs @ ys) b = buy_pass cp (xs @ ys) b"
      and e2: "buy_pass cp (i # xs) b = buy_pass cp xs b"
      by (rule buy_pass_skip)+
    show ?thesis unfolding append_Cons e1 e2 by (rule Cons.IH)
  next
    case True
    obtain r1 b1 where e: "bot_execute_buy i b = (r1, b1)" by (cases "bot_execute_buy i b")
    show ?thesis
    proof (cases r1)
      case None
      have e1: "buy_pass cp (i # xs @ ys) b = buy_pass cp (xs @ ys) b1"
        using True e None by (intro buy_pass_exec) simp_all
      have e2: "buy_pass cp (i # xs) b = buy_pass cp xs b1"
        using True e None by (intro buy_pass_exec) simp_all
      show ?thesis unfolding append_Cons e1 e2 by (rule Cons.IH)
    next
      case (Some err)
      have e1: "buy_pass cp (i # xs @ ys) b = (Some err, b1)"
        using True e Some by (intro buy_pass_raise) simp_all
      have e2: "buy_pass cp (i # xs) b = (Some err, b1)"
        using True e Some by (intro buy_pass_raise) simp_all
      show ?thesis unfolding append_Cons e1 e2 by simp
    qed
  qed
qed

lemma sell_pass_append:
  "sell_pass cp (xs @ ys) b =
     (case sell_pass cp xs b of (None, b') \<Rightarrow> sell_pass cp ys b' | (Some e, b') \<Rightarrow> (Some e, b'))"
proof (induction xs arbitrary: b)
  case Nil
  then show ?case by simp
next
  case (Cons i xs)
  show ?case
  proof (cases "status (levels b ! i) = Base \<and> cp \<ge> price (levels b ! i) - eps b")
    case False
    then have e1: "sell_pass cp (i # xs @ ys) b = sell_pass cp (xs @ ys) b"
      and e2: "sell_pass cp (i # xs) b = sell_pass cp xs b"
      by (rule sell_pass_skip)+
    show ?thesis unfolding append_Cons e1 e2 by (rule Cons.IH)
  next
    case True
    obtain r1 b1 where e: "bot_execute_sell i b = (r1, b1)" by (cases "bot_execute_sell i b")
    show ?thesis
    proof (cases r1)
      case None
      have e1: "sell_pass cp (i # xs @ ys) b = sell_pass cp (xs @ ys) b1"
        using True e None by (intro sell_pass_exec) simp_all
      have e2: "sell_pass cp (i # xs) b = sell_pass cp xs b1"
        using True e None by (intro sell_pass_exec) simp_all
      show ?thesis unfolding append_Cons e1 e2 by (rule Cons.IH)
    next
      case (Some err)
      have e1: "sell_pass cp (i # xs @ ys) b = (Some err, b1)"
        using True e Some by (intro sell_pass_raise) simp_all
      have e2: "sell_pass cp (i # xs) b = (Some err, b1)"
        using True e Some by (intro sell_pass_raise) simp_all
      show ?thesis unfolding append_Cons e1 e2 by simp
    qed
  qed
qed

lemma bot_execute_buy_raise_unchanged: "bot_execute_buy i b = (Some e, b') \<Longrightarrow> b' = b"
  by (erule bot_execute_buy_cases) simp_all

lemma bot_execute_sell_raise_unchanged: "bot_execute_sell i b = (Some e, b') \<Longrightarrow> b' = b"
  by (erule bot_execute_sell_cases) simp_all

lemma coarse_engines_constructed:
  "post_init pow_at_one coarse_buy_config
     = Inr (two_levels coarse_buy_config (mk_level 1 Base 0 3 None) (mk_level 2 Quote 1 0 None))"
  "post_init pow_at_one coarse_sell_config = Inr coarse_sell_engine"
  by code_simp+




subsection \<open>Levels that no longer fire after a pass\<close>

lemma buy_pass_quiet:
  "\<forall>i \<in> set idx. \<not> buy_fires cp b (levels b ! i) \<Longrightarrow> buy_pass cp idx b = (None, b)"
proof (induction idx)
  case Nil
  then show ?case by simp
next
  case (Cons i rest)
  have r: "buy_pass cp rest b = (None, b)" using Cons by simp
  show ?case
  proof (cases "status (levels b ! i) = Quote \<and> cp \<le> price (levels b ! i) + eps b")
    case False
    then have "buy_pass cp (i # rest) b = buy_pass cp rest b" by (rule buy_pass_skip)
    then show ?thesis using r by simp
  next
    case True
    then have "quote_budget (levels b ! i) \<le> eps b"
      using Cons.prems by (simp add: buy_fires_def)
    then have "bot_execute_buy i b = (None, b)" by (simp add: bot_execute_buy_eq)
    then have "buy_pass cp (i # rest) b = buy_pass cp rest b"
      using True by (intro buy_pass_exec) simp_all
    then show ?thesis using r by simp
  qed
qed

lemma sell_pass_quiet:
  "\<forall>i \<in> set idx. \<not> sell_fires cp b (levels b ! i) \<Longrightarrow> sell_pass cp idx b = (None, b)"
proof (induction idx)
  case Nil
  then show ?case by simp
next
  case (Cons i rest)
  have r: "sell_pass cp rest b = (None, b)" using Cons by simp
  show ?case
  proof (cases "status (levels b ! i) = Base \<and> cp \<ge> price (levels b ! i) - eps b")
    case False
    then have "sell_pass cp (i # rest) b = sell_pass cp rest b" by (rule sell_pass_skip)
    then show ?thesis using r by simp
  next
    case True
    then have "base_position (levels b ! i) \<le> eps b"
      using Cons.prems by (simp add: sell_fires_def)
    then have "bot_execute_sell i b = (None, b)" by (simp add: bot_execute_sell_eq)
    then have "sell_pass cp (i # rest) b = sell_pass cp rest b"
      using True by (intro sell_pass_exec) simp_all
    then show ?thesis using r by simp
  qed
qed

text \<open>What one execution does to the level at another position, or at its own.\<close>

lemma buy_keeps_buy_quiet:
  assumes "bot_execute_buy j s = (r, s1)" and "j < length (levels s)"
    and "\<not> buy_fires cp s (levels s ! i)"
  shows "\<not> buy_fires cp s1 (levels s1 ! i)"
  using assms(1)
proof (cases rule: bot_execute_buy_cases)
  case (exec t)
  show ?thesis
  proof (cases "i = j")
    case True
    then show ?thesis using exec(6) assms(2)
      by (simp add: buy_fires_def commit_buy_fields bought_level_fields)
  next
    case False
    then show ?thesis using exec(6) assms(3)
      by (simp add: buy_fires_def commit_buy_fields)
  qed
qed (use assms(3) in simp_all)

lemma buy_makes_buy_quiet:
  assumes "bot_execute_buy i s = (None, s1)" and "i < length (levels s)"
  shows "\<not> buy_fires cp s1 (levels s1 ! i)"
  using assms(1)
proof (cases rule: bot_execute_buy_cases)
  case skip
  then show ?thesis by (simp add: buy_fires_def)
next
  case (exec t)
  then show ?thesis using assms(2)
    by (simp add: buy_fires_def commit_buy_fields bought_level_fields)
qed simp

lemma sell_keeps_sell_quiet:
  assumes "bot_execute_sell j s = (r, s1)" and "j < length (levels s)"
    and "\<not> sell_fires cp s (levels s ! i)"
  shows "\<not> sell_fires cp s1 (levels s1 ! i)"
  using assms(1)
proof (cases rule: bot_execute_sell_cases)
  case (exec t)
  show ?thesis
  proof (cases "i = j")
    case True
    then show ?thesis using exec(6) assms(2)
      by (simp add: sell_fires_def commit_sell_fields sold_level_fields)
  next
    case False
    then show ?thesis using exec(6) assms(3)
      by (simp add: sell_fires_def commit_sell_fields)
  qed
qed (use assms(3) in simp_all)

lemma sell_makes_sell_quiet:
  assumes "bot_execute_sell i s = (None, s1)" and "i < length (levels s)"
  shows "\<not> sell_fires cp s1 (levels s1 ! i)"
  using assms(1)
proof (cases rule: bot_execute_sell_cases)
  case skip
  then show ?thesis by (simp add: sell_fires_def)
next
  case (exec t)
  then show ?thesis using assms(2)
    by (simp add: sell_fires_def commit_sell_fields sold_level_fields)
qed simp

lemma sell_keeps_buy_quiet:
  assumes "bot_execute_sell j s = (r, s1)" and "j < length (levels s)"
    and "cp \<ge> price (levels s ! j) - eps s"
    and "eps s < \<bar>cp - price (levels s ! j)\<bar>"
    and "\<not> buy_fires cp s (levels s ! i)"
  shows "\<not> buy_fires cp s1 (levels s1 ! i)"
  using assms(1)
proof (cases rule: bot_execute_sell_cases)
  case (exec t)
  show ?thesis
  proof (cases "i = j")
    case True
    have "price (levels s ! j) + eps s < cp" using assms(3,4) by linarith
    then show ?thesis using True exec(6) assms(2)
      by (simp add: buy_fires_def commit_sell_fields sold_level_fields)
  next
    case False
    then show ?thesis using exec(6) assms(5)
      by (simp add: buy_fires_def commit_sell_fields)
  qed
qed (use assms(5) in simp_all)

lemma buy_pass_all_quiet:
  assumes "buy_pass cp idx b = (None, b')" and "\<forall>i \<in> set idx. i < length (levels b)"
  shows "\<forall>i \<in> set idx. \<not> buy_fires cp b' (levels b' ! i)"
  using assms
proof (induction idx arbitrary: b)
  case Nil
  then show ?case by simp
next
  case (Cons i rest)
  have i: "i < length (levels b)" using Cons.prems(2) by simp
  have "\<exists>s. buy_pass cp rest s = (None, b') \<and> length (levels s) = length (levels b) \<and>
             \<not> buy_fires cp s (levels s ! i)"
  proof (cases "status (levels b ! i) = Quote \<and> cp \<le> price (levels b ! i) + eps b")
    case False
    then have "buy_pass cp (i # rest) b = buy_pass cp rest b" by (rule buy_pass_skip)
    then show ?thesis using Cons.prems(1) False by (auto simp: buy_fires_def)
  next
    case True
    obtain r1 b1 where e: "bot_execute_buy i b = (r1, b1)" by (cases "bot_execute_buy i b")
    have "r1 = None"
    proof (cases r1)
      case (Some err)
      then have "buy_pass cp (i # rest) b = (Some err, b1)"
        using True e by (intro buy_pass_raise) simp_all
      then show ?thesis using Cons.prems(1) by simp
    qed simp
    then have e': "bot_execute_buy i b = (None, b1)" using e by simp
    have "buy_pass cp (i # rest) b = buy_pass cp rest b1"
      using True e' by (intro buy_pass_exec) simp_all
    then show ?thesis
      using Cons.prems(1) buy_makes_buy_quiet[OF e' i] bot_execute_buy_length[OF e'] by auto
  qed
  then obtain s where s: "buy_pass cp rest s = (None, b')"
    "length (levels s) = length (levels b)" "\<not> buy_fires cp s (levels s ! i)" by blast
  have "\<not> buy_fires cp b' (levels b' ! i) \<and> length (levels b') = length (levels b)"
  proof (rule buy_pass_invariant[where
        P = "\<lambda>x. \<not> buy_fires cp x (levels x ! i) \<and> length (levels x) = length (levels b)", OF s(1)])
    show "\<not> buy_fires cp s (levels s ! i) \<and> length (levels s) = length (levels b)"
      using s by simp
  next
    fix j x r1 x1
    assume "\<not> buy_fires cp x (levels x ! i) \<and> length (levels x) = length (levels b)"
      and "j \<in> set rest" and "bot_execute_buy j x = (r1, x1)"
    then show "\<not> buy_fires cp x1 (levels x1 ! i) \<and> length (levels x1) = length (levels b)"
      using buy_keeps_buy_quiet[of j x r1 x1 cp i] bot_execute_buy_length[of j x r1 x1]
        Cons.prems(2) by simp
  qed
  moreover have "\<forall>k \<in> set rest. \<not> buy_fires cp b' (levels b' ! k)"
    using Cons.IH[OF s(1)] Cons.prems(2) s(2) by simp
  ultimately show ?case by simp
qed

lemma sell_pass_all_quiet:
  assumes "sell_pass cp idx b = (None, b')" and "\<forall>i \<in> set idx. i < length (levels b)"
  shows "\<forall>i \<in> set idx. \<not> sell_fires cp b' (levels b' ! i)"
  using assms
proof (induction idx arbitrary: b)
  case Nil
  then show ?case by simp
next
  case (Cons i rest)
  have i: "i < length (levels b)" using Cons.prems(2) by simp
  have "\<exists>s. sell_pass cp rest s = (None, b') \<and> length (levels s) = length (levels b) \<and>
             \<not> sell_fires cp s (levels s ! i)"
  proof (cases "status (levels b ! i) = Base \<and> cp \<ge> price (levels b ! i) - eps b")
    case False
    then have "sell_pass cp (i # rest) b = sell_pass cp rest b" by (rule sell_pass_skip)
    then show ?thesis using Cons.prems(1) False by (auto simp: sell_fires_def)
  next
    case True
    obtain r1 b1 where e: "bot_execute_sell i b = (r1, b1)" by (cases "bot_execute_sell i b")
    have "r1 = None"
    proof (cases r1)
      case (Some err)
      then have "sell_pass cp (i # rest) b = (Some err, b1)"
        using True e by (intro sell_pass_raise) simp_all
      then show ?thesis using Cons.prems(1) by simp
    qed simp
    then have e': "bot_execute_sell i b = (None, b1)" using e by simp
    have "sell_pass cp (i # rest) b = sell_pass cp rest b1"
      using True e' by (intro sell_pass_exec) simp_all
    then show ?thesis
      using Cons.prems(1) sell_makes_sell_quiet[OF e' i] bot_execute_sell_length[OF e'] by auto
  qed
  then obtain s where s: "sell_pass cp rest s = (None, b')"
    "length (levels s) = length (levels b)" "\<not> sell_fires cp s (levels s ! i)" by blast
  have "\<not> sell_fires cp b' (levels b' ! i) \<and> length (levels b') = length (levels b)"
  proof (rule sell_pass_invariant[where
        P = "\<lambda>x. \<not> sell_fires cp x (levels x ! i) \<and> length (levels x) = length (levels b)", OF s(1)])
    show "\<not> sell_fires cp s (levels s ! i) \<and> length (levels s) = length (levels b)"
      using s by simp
  next
    fix j x r1 x1
    assume "\<not> sell_fires cp x (levels x ! i) \<and> length (levels x) = length (levels b)"
      and "j \<in> set rest" and "bot_execute_sell j x = (r1, x1)"
    then show "\<not> sell_fires cp x1 (levels x1 ! i) \<and> length (levels x1) = length (levels b)"
      using sell_keeps_sell_quiet[of j x r1 x1 cp i] bot_execute_sell_length[of j x r1 x1]
        Cons.prems(2) by simp
  qed
  moreover have "\<forall>k \<in> set rest. \<not> sell_fires cp b' (levels b' ! k)"
    using Cons.IH[OF s(1)] Cons.prems(2) s(2) by simp
  ultimately show ?case by simp
qed

lemma buy_pass_config: "buy_pass cp idx b = (r, b') \<Longrightarrow> same_config b b'"
  by (rule buy_pass_invariant[where P = "same_config b"])
     (auto intro: same_config_refl same_config_trans bot_execute_buy_config)

lemma sell_pass_config: "sell_pass cp idx b = (r, b') \<Longrightarrow> same_config b b'"
  by (rule sell_pass_invariant[where P = "same_config b"])
     (auto intro: same_config_refl same_config_trans bot_execute_sell_config)

lemma same_config_price:
  "same_config b s \<Longrightarrow> i < length (levels b) \<Longrightarrow> price (levels s ! i) = price (levels b ! i)"
  unfolding same_config_def by (metis nth_map)

lemma sell_pass_keeps_buy_quiet:
  assumes "sell_pass cp idx b = (r, b')" and "\<forall>i \<in> set idx. i < length (levels b)"
    and gap: "\<forall>i < length (levels b). eps b < \<bar>cp - price (levels b ! i)\<bar>"
    and "\<forall>i < length (levels b). \<not> buy_fires cp b (levels b ! i)"
  shows "\<forall>i < length (levels b). \<not> buy_fires cp b' (levels b' ! i)"
proof -
  let ?P = "\<lambda>x. same_config b x \<and> (\<forall>i < length (levels b). \<not> buy_fires cp x (levels x ! i))"
  have "?P b'"
  proof (rule sell_pass_invariant[where P = ?P, OF assms(1)])
    show "?P b" using assms(4) by (simp add: same_config_refl)
  next
    fix j x r1 x1
    assume P: "?P x" and j: "j \<in> set idx" and st: "status (levels x ! j) = Base"
      and el: "price (levels x ! j) - eps x \<le> cp" and e: "bot_execute_sell j x = (r1, x1)"
    have jl: "j < length (levels b)" using j assms(2) by simp
    have c: "same_config b x" using P by simp
    have jx: "j < length (levels x)" using jl c by (simp add: same_config_def)
    have g: "eps x < \<bar>cp - price (levels x ! j)\<bar>"
      using gap jl same_config_price[OF c jl] c by (simp add: same_config_def)
    have "\<forall>i < length (levels b). \<not> buy_fires cp x1 (levels x1 ! i)"
      using sell_keeps_buy_quiet[OF e jx el g] P by blast
    moreover have "same_config b x1"
      using c bot_execute_sell_config[OF e] by (rule same_config_trans)
    ultimately show "?P x1" by simp
  qed
  then show ?thesis by simp
qed

subsection \<open>A pass as a function of the levels\<close>

lemma on_price_tick_passes:
  "on_price_tick p b =
     (case validate_positive p ''market_price'' (eps b) of
        Inl err \<Rightarrow> (Some err, b)
      | Inr cp \<Rightarrow>
          (case buy_then_sell cp b of
             (Some err, b2) \<Rightarrow> (Some err, b2)
           | (None, b2) \<Rightarrow>
               (case ensure_non_negative_balance (base_balance b2) (eps b2) of
                  Some err \<Rightarrow> (Some err, b2)
                | None \<Rightarrow>
                    (case ensure_non_negative_balance (quote_balance b2) (eps b2) of
                       Some err \<Rightarrow> (Some err, b2)
                     | None \<Rightarrow> (None, b2)))))"
  by (simp add: on_price_tick_def buy_then_sell_def split: sum.split prod.split option.split)












section \<open>The claims\<close>

subsection \<open>C1: the base balance and the base held by the levels\<close>




subsection \<open>C2: balances after a tick that returns\<close>

text \<open>C2. After a call of \<open>on_price_tick\<close> that returns normally, \<open>base_balance \<ge> -eps\<close>
  and \<open>quote_balance \<ge> -eps\<close>. This holds from any state, reachable or not: the two
  final checks of the method raise otherwise.\<close>

theorem tick_keeps_balances_above_minus_eps:
  assumes "on_price_tick p b = (None, b')"
  shows "- eps b' \<le> base_balance b' \<and> - eps b' \<le> quote_balance b'"
proof (cases "validate_positive p ''market_price'' (eps b)")
  case (Inl e)
  then show ?thesis using assms by (simp add: on_price_tick_def)
next
  case (Inr cp)
  obtain r1 b1 where bp: "buy_pass cp [0 ..< length (levels b)] b = (r1, b1)"
    by (cases "buy_pass cp [0 ..< length (levels b)] b")
  obtain r2 b2 where sp: "sell_pass cp (rev [0 ..< length (levels b1)]) b1 = (r2, b2)"
    by (cases "sell_pass cp (rev [0 ..< length (levels b1)]) b1")
  have r1: "r1 = None" using assms Inr bp by (cases r1) (simp_all add: on_price_tick_def)
  have r2: "r2 = None" using assms Inr bp r1 sp by (cases r2) (simp_all add: on_price_tick_def)
  have "ensure_non_negative_balance (base_balance b2) (eps b2) = None \<and>
        ensure_non_negative_balance (quote_balance b2) (eps b2) = None \<and> b' = b2"
    using assms Inr bp r1 sp r2
    by (simp add: on_price_tick_def split: option.splits)
  then show ?thesis
    by (simp add: ensure_non_negative_balance_def split: if_splits)
qed

text \<open>The theorem at the example engine: the tick at 1.5 returns.\<close>

theorem tick_keeps_balances_above_minus_eps_witness:
  "on_price_tick (3 / 2) demo_engine = (None, demo_after_tick) \<and>
   - eps demo_after_tick \<le> base_balance demo_after_tick \<and>
   - eps demo_after_tick \<le> quote_balance demo_after_tick"
  using tick_keeps_balances_above_minus_eps[OF demo_tick_returns] demo_tick_returns by simp

subsection \<open>C3: a buy followed by a sell at the same level\<close>




subsection \<open>C4: the same price twice\<close>

text \<open>C4, as the code has it. The claim says that after a tick at \<open>p\<close> that returns, a second
  tick at \<open>p\<close> changes nothing. The buy condition \<open>p \<le> price + eps\<close> and the sell condition
  \<open>p \<ge> price - eps\<close> overlap: a level whose price is within \<open>eps\<close> of \<open>p\<close> is sold by one
  tick and bought back by the next (or bought and sold by the same tick). What holds: when
  no level price is within \<open>eps\<close> of \<open>p\<close>, a tick at \<open>p\<close> that returns is followed by a tick
  at \<open>p\<close> that returns and leaves the whole state (balances, levels, trade history) as it
  is. This holds from any state.\<close>

theorem same_price_again_changes_nothing:
  assumes "on_price_tick p b = (None, b')"
    and "\<forall>l \<in> set (levels b). eps b < \<bar>p - price l\<bar>"
  shows "on_price_tick p b' = (None, b')"
proof -
  let ?n = "length (levels b)"
  have v: "validate_positive p ''market_price'' (eps b) = Inr p"
    using assms(1) by (auto simp: on_price_tick_def validate_positive_def split: if_splits)
  obtain r1 b1 where bp: "buy_pass p [0 ..< ?n] b = (r1, b1)"
    by (cases "buy_pass p [0 ..< ?n] b")
  have r1: "r1 = None" using assms(1) v bp by (cases r1) (simp_all add: on_price_tick_def)
  obtain r2 b2 where sp: "sell_pass p (rev [0 ..< length (levels b1)]) b1 = (r2, b2)"
    by (cases "sell_pass p (rev [0 ..< length (levels b1)]) b1")
  have r2: "r2 = None" using assms(1) v bp r1 sp by (cases r2) (simp_all add: on_price_tick_def)
  have fin: "ensure_non_negative_balance (base_balance b2) (eps b2) = None \<and>
        ensure_non_negative_balance (quote_balance b2) (eps b2) = None \<and> b' = b2"
    using assms(1) v bp r1 sp r2 by (simp add: on_price_tick_def split: option.splits)
  have c1: "same_config b b1" using bp by (rule buy_pass_config)
  have c2: "same_config b1 b2" using sp by (rule sell_pass_config)
  have c: "same_config b b2" using c1 c2 by (rule same_config_trans)
  have n1: "length (levels b1) = ?n" and n2: "length (levels b2) = ?n"
    using c1 c by (simp_all add: same_config_def)
  have q1: "\<forall>i < length (levels b1). \<not> buy_fires p b1 (levels b1 ! i)"
    using buy_pass_all_quiet[of p "[0 ..< ?n]" b b1] bp r1 n1 by simp
  have gap1: "\<forall>i < length (levels b1). eps b1 < \<bar>p - price (levels b1 ! i)\<bar>"
  proof (intro allI impI)
    fix i assume i: "i < length (levels b1)"
    then have "levels b ! i \<in> set (levels b)" using n1 by simp
    then have "eps b < \<bar>p - price (levels b ! i)\<bar>" using assms(2) by blast
    then show "eps b1 < \<bar>p - price (levels b1 ! i)\<bar>"
      using same_config_price[OF c1, of i] i n1 c1 by (simp add: same_config_def)
  qed
  have qb: "\<forall>i < ?n. \<not> buy_fires p b2 (levels b2 ! i)"
    using sell_pass_keeps_buy_quiet[OF sp _ gap1 q1] n1 by simp
  have qs: "\<forall>i < ?n. \<not> sell_fires p b2 (levels b2 ! i)"
    using sell_pass_all_quiet[of p "rev [0 ..< length (levels b1)]" b1 b2] sp r2 n1 by simp
  have bq: "buy_pass p [0 ..< length (levels b2)] b2 = (None, b2)"
    using qb n2 by (intro buy_pass_quiet) simp
  have sq: "sell_pass p (rev [0 ..< length (levels b2)]) b2 = (None, b2)"
    using qs n2 by (intro sell_pass_quiet) simp
  have v2: "validate_positive p ''market_price'' (eps b2) = Inr p"
    using v c by (simp add: same_config_def)
  have "on_price_tick p b2 = (None, b2)"
    using v2 bq sq fin by (simp add: on_price_tick_def)
  then show ?thesis using fin by simp
qed

text \<open>The theorem at the example engine: a tick at 1.5, between the two level prices, trades twice; the next one does nothing.\<close>

theorem same_price_again_changes_nothing_witness:
  "on_price_tick (3 / 2) demo_engine = (None, demo_after_tick) \<and>
   eps demo_engine < \<bar>3 / 2 - price (levels demo_engine ! 0)\<bar> \<and>
   eps demo_engine < \<bar>3 / 2 - price (levels demo_engine ! 1)\<bar> \<and>
   length (trade_history demo_after_tick) = 2 \<and>
   on_price_tick (3 / 2) demo_after_tick = (None, demo_after_tick)"
proof -
  have l: "levels demo_engine = [levels demo_engine ! 0, levels demo_engine ! 1]" by code_simp
  have g: "eps demo_engine < \<bar>3 / 2 - price (levels demo_engine ! 0)\<bar>"
          "eps demo_engine < \<bar>3 / 2 - price (levels demo_engine ! 1)\<bar>" by code_simp+
  have "set (levels demo_engine) = {levels demo_engine ! 0, levels demo_engine ! 1}"
    by (subst l) simp
  then have gap: "\<forall>l \<in> set (levels demo_engine). eps demo_engine < \<bar>3 / 2 - price l\<bar>"
    using g by simp
  have h: "length (trade_history demo_after_tick) = 2" by code_simp
  show ?thesis
    using same_price_again_changes_nothing[OF demo_tick_returns gap] demo_tick_returns g h by simp
qed

text \<open>C4 as stated fails: a tick at 1, the price of the first level, sells that level; the
  second tick at 1 buys it back and sells it again, two more trade records.\<close>

theorem same_price_again_trades_again:
  "post_init pow_at_one demo_config = Inr demo_engine \<and>
   fst (on_price_tick 1 demo_engine) = None \<and>
   fst (on_price_tick 1 (snd (on_price_tick 1 demo_engine))) = None \<and>
   length (trade_history (snd (on_price_tick 1 demo_engine))) = 2 \<and>
   length (trade_history (snd (on_price_tick 1 (snd (on_price_tick 1 demo_engine))))) = 4"
  by code_simp

subsection \<open>C5: the prices of the ladder\<close>




subsection \<open>C6: what the allocation leaves\<close>




subsection \<open>C7: the two amounts of a level and its status\<close>




subsection \<open>C8: an execution that raises\<close>

text \<open>C8. If the execution at a level raises during \<open>on_price_tick\<close>, the call raises the same
  error, and the engine is left in the state it had when that execution began: the levels
  before it in the pass (and, for a sell, the whole buy pass) keep their effect, the
  execution that raises changes nothing, and no later level is processed. The first half
  of the statement is a raise in the buy pass (the positions \<open>pre\<close> are done, \<open>i\<close> raises,
  \<open>post\<close> is never reached, and neither is the sell pass), the second a raise in the sell
  pass.\<close>

theorem raise_ends_tick_and_keeps_earlier_levels:
  assumes "validate_positive p ''market_price'' (eps b) = Inr cp"
  shows "([0 ..< length (levels b)] = pre @ i # post \<and>
          buy_pass cp pre b = (None, b1) \<and>
          status (levels b1 ! i) = Quote \<and> cp \<le> price (levels b1 ! i) + eps b1 \<and>
          bot_execute_buy i b1 = (Some e, s)
          \<longrightarrow> s = b1 \<and> on_price_tick p b = (Some e, b1)) \<and>
         (buy_pass cp [0 ..< length (levels b)] b = (None, b1) \<and>
          rev [0 ..< length (levels b1)] = pre @ i # post \<and>
          sell_pass cp pre b1 = (None, b2) \<and>
          status (levels b2 ! i) = Base \<and> cp \<ge> price (levels b2 ! i) - eps b2 \<and>
          bot_execute_sell i b2 = (Some e, s)
          \<longrightarrow> s = b2 \<and> on_price_tick p b = (Some e, b2))"
proof (intro conjI impI)
  assume h: "[0 ..< length (levels b)] = pre @ i # post \<and>
          buy_pass cp pre b = (None, b1) \<and>
          status (levels b1 ! i) = Quote \<and> cp \<le> price (levels b1 ! i) + eps b1 \<and>
          bot_execute_buy i b1 = (Some e, s)"
  then show u: "s = b1" using bot_execute_buy_raise_unchanged by blast
  have "buy_pass cp (i # post) b1 = (Some e, s)"
    using h by (intro buy_pass_raise) simp_all
  then have "buy_pass cp [0 ..< length (levels b)] b = (Some e, b1)"
    using h u by (simp add: buy_pass_append)
  then show "on_price_tick p b = (Some e, b1)"
    using assms by (simp add: on_price_tick_def)
next
  assume h: "buy_pass cp [0 ..< length (levels b)] b = (None, b1) \<and>
          rev [0 ..< length (levels b1)] = pre @ i # post \<and>
          sell_pass cp pre b1 = (None, b2) \<and>
          status (levels b2 ! i) = Base \<and> cp \<ge> price (levels b2 ! i) - eps b2 \<and>
          bot_execute_sell i b2 = (Some e, s)"
  then show u: "s = b2" using bot_execute_sell_raise_unchanged by blast
  have "sell_pass cp (i # post) b2 = (Some e, s)"
    using h by (intro sell_pass_raise) simp_all
  then have "sell_pass cp (rev [0 ..< length (levels b1)]) b1 = (Some e, b2)"
    using h u by (simp add: sell_pass_append)
  then show "on_price_tick p b = (Some e, b2)"
    using assms h by (simp add: on_price_tick_def)
qed

text \<open>The theorem at two engines with a coarse precision. In the first, a tick at 1 buys at
  the first level and raises at the second, where a budget of 1 at the price 2 buys 0 units;
  the first level stays bought. In the second, a tick at 2 sells the upper level and raises
  at the lower one, where 0.5 base at the price 1 sell for 0; the upper level stays sold.\<close>

theorem raise_ends_tick_and_keeps_earlier_levels_witness:
  "status (levels coarse_buy_engine ! 0) = Quote \<and>
   bot_execute_buy 1 (snd (buy_pass 1 [0] coarse_buy_engine))
     = (Some NullTrade, snd (buy_pass 1 [0] coarse_buy_engine)) \<and>
   on_price_tick 1 coarse_buy_engine = (Some NullTrade, snd (buy_pass 1 [0] coarse_buy_engine)) \<and>
   status (levels (snd (buy_pass 1 [0] coarse_buy_engine)) ! 0) = Base \<and>
   status (levels coarse_sell_engine ! 1) = Base \<and>
   bot_execute_sell 0 (snd (sell_pass 2 [1] coarse_sell_engine))
     = (Some NullTrade, snd (sell_pass 2 [1] coarse_sell_engine)) \<and>
   on_price_tick 2 coarse_sell_engine = (Some NullTrade, snd (sell_pass 2 [1] coarse_sell_engine)) \<and>
   status (levels (snd (sell_pass 2 [1] coarse_sell_engine)) ! 1) = Quote"
proof -
  let ?b = coarse_buy_engine
  let ?b1 = "snd (buy_pass 1 [0] ?b)"
  have v: "validate_positive 1 ''market_price'' (eps ?b) = Inr 1" by code_simp
  have i1: "[0 ..< length (levels ?b)] = [0] @ 1 # []" by code_simp
  have i2: "fst (buy_pass 1 [0] ?b) = None" by code_simp
  then have i2': "buy_pass 1 [0] ?b = (None, ?b1)" by (simp add: prod_eq_iff)
  have i3: "status (levels ?b1 ! 1) = Quote \<and> 1 \<le> price (levels ?b1 ! 1) + eps ?b1" by code_simp
  have i4: "fst (bot_execute_buy 1 ?b1) = Some NullTrade" by code_simp
  then have i4': "bot_execute_buy 1 ?b1 = (Some NullTrade, snd (bot_execute_buy 1 ?b1))"
    by (simp add: prod_eq_iff)
  note t = raise_ends_tick_and_keeps_earlier_levels[OF v,
      of "[0]" 1 "[]" ?b1 NullTrade "snd (bot_execute_buy 1 ?b1)"]
  have A: "snd (bot_execute_buy 1 ?b1) = ?b1 \<and> on_price_tick 1 ?b = (Some NullTrade, ?b1)"
    using conjunct1[OF t] i1 i2' i3 i4' by blast
  have s0: "status (levels ?b ! 0) = Quote" "status (levels ?b1 ! 0) = Base" by code_simp+
  let ?c = coarse_sell_engine
  let ?c1 = "snd (buy_pass 2 [0 ..< length (levels ?c)] ?c)"
  let ?c2 = "snd (sell_pass 2 [1] ?c)"
  have w: "validate_positive 2 ''market_price'' (eps ?c) = Inr 2" by code_simp
  have j0: "buy_pass 2 [0 ..< length (levels ?c)] ?c = (None, ?c)" by code_simp
  have j1: "rev [0 ..< length (levels ?c)] = [1] @ 0 # []" by code_simp
  have j2: "fst (sell_pass 2 [1] ?c) = None" by code_simp
  then have j2': "sell_pass 2 [1] ?c = (None, ?c2)" by (simp add: prod_eq_iff)
  have j3: "status (levels ?c2 ! 0) = Base \<and> 2 \<ge> price (levels ?c2 ! 0) - eps ?c2" by code_simp
  have j4: "fst (bot_execute_sell 0 ?c2) = Some NullTrade" by code_simp
  then have j4': "bot_execute_sell 0 ?c2 = (Some NullTrade, snd (bot_execute_sell 0 ?c2))"
    by (simp add: prod_eq_iff)
  note u = raise_ends_tick_and_keeps_earlier_levels[OF w,
      of "[1]" 0 "[]" ?c NullTrade "snd (bot_execute_sell 0 ?c2)" ?c2]
  have B: "snd (bot_execute_sell 0 ?c2) = ?c2 \<and> on_price_tick 2 ?c = (Some NullTrade, ?c2)"
    using conjunct2[OF u] j0 j1 j2' j3 j4' by blast
  have s1: "status (levels ?c ! 1) = Base" "status (levels ?c2 ! 1) = Quote" by code_simp+
  show ?thesis using A B i4' j4' s0 s1 by simp
qed

subsection \<open>C9: the order of the two passes\<close>




subsection \<open>C10: amounts are multiples of the rounding units\<close>




end
